theory Spec2Isabelle
  imports Main
begin

section \<open>The column specification compiler of saas-cli\<close>

text \<open>
  This theory embeds \<^verbatim>\<open>src/utils/column-parser.ts\<close> (the parser \<^verbatim>\<open>parseColumnSpec\<close> and
  the two emitters \<^verbatim>\<open>columnsToSQL\<close> and \<^verbatim>\<open>columnsToDrift\<close>) together with the identifier
  predicate \<^verbatim>\<open>validateIdentifier\<close> of the validation utilities, and settles the properties
  the specification states about them.

  A JavaScript string is modelled as a \<^typ>\<open>string\<close>, one \<^typ>\<open>char\<close> per code unit. The
  model is exact on ASCII text: case conversion acts on the letters \<^verbatim>\<open>A-Z\<close> and \<^verbatim>\<open>a-z\<close>,
  white space is the ASCII white space (tab, line feed, vertical tab, form feed, carriage
  return, space), and every character above 127 is a caseless non-space character.
\<close>

subsection \<open>String primitives of the runtime\<close>

definition isUpper :: "char \<Rightarrow> bool" where
  "isUpper c = (let n = (of_char c :: nat) in 65 \<le> n \<and> n \<le> 90)"

definition isLower :: "char \<Rightarrow> bool" where
  "isLower c = (let n = (of_char c :: nat) in 97 \<le> n \<and> n \<le> 122)"

definition isDigit :: "char \<Rightarrow> bool" where
  "isDigit c = (let n = (of_char c :: nat) in 48 \<le> n \<and> n \<le> 57)"

definition toLowerChar :: "char \<Rightarrow> char" where
  "toLowerChar c = (if isUpper c then char_of ((of_char c :: nat) + 32) else c)"

definition toUpperChar :: "char \<Rightarrow> char" where
  "toUpperChar c = (if isLower c then char_of ((of_char c :: nat) - 32) else c)"

text \<open>\<^verbatim>\<open>String.prototype.toLowerCase\<close> and \<^verbatim>\<open>toUpperCase\<close>.\<close>

definition toLowerCase :: "string \<Rightarrow> string" where
  "toLowerCase s = map toLowerChar s"

definition toUpperCase :: "string \<Rightarrow> string" where
  "toUpperCase s = map toUpperChar s"

text \<open>The regular expression class \<^verbatim>\<open>\s\<close>, which is also what \<^verbatim>\<open>trim\<close> strips.\<close>

definition isWhiteSpace :: "char \<Rightarrow> bool" where
  "isWhiteSpace c = (let n = (of_char c :: nat) in (9 \<le> n \<and> n \<le> 13) \<or> n = 32)"

text \<open>The characters the regular expression atom \<^verbatim>\<open>.\<close> refuses.\<close>

definition isLineTerminator :: "char \<Rightarrow> bool" where
  "isLineTerminator c = (c = CHR 0x0A \<or> c = CHR 0x0D)"

definition trim :: "string \<Rightarrow> string" where
  "trim s = rev (dropWhile isWhiteSpace (rev (dropWhile isWhiteSpace s)))"

text \<open>
  \<^verbatim>\<open>s.split(c)\<close> for a one-character separator: the result is never empty, and the
  empty string splits into one empty piece. (The recursive call never returns the empty
  list, so the first branch of the inner match is never taken; \<open>splitOn_not_Nil\<close> below.)
\<close>

fun splitOn :: "char \<Rightarrow> string \<Rightarrow> string list" where
  "splitOn c [] = [[]]"
| "splitOn c (x # xs) =
     (if x = c then [] # splitOn c xs
      else (case splitOn c xs of
              [] \<Rightarrow> [[x]]
            | p # ps \<Rightarrow> (x # p) # ps))"

text \<open>\<^verbatim>\<open>Array.prototype.join\<close>.\<close>

fun join :: "string \<Rightarrow> string list \<Rightarrow> string" where
  "join sep [] = []"
| "join sep [x] = x"
| "join sep (x # y # ys) = x @ sep @ join sep (y # ys)"

subsection \<open>Values, errors and the column descriptor\<close>

text \<open>
  The lookup tables of the source are object literals, so a lookup \<^verbatim>\<open>typeMap[key]\<close> that
  finds no own property goes on to \<^verbatim>\<open>Object.prototype\<close>. A value read from such a table is
  therefore a string (\<open>JStr\<close>) or a member of \<^verbatim>\<open>Object.prototype\<close>, named by its key
  (\<open>JProto\<close>): the function \<^verbatim>\<open>Object\<close> for \<^verbatim>\<open>constructor\<close>, the prototype object itself for
  \<^verbatim>\<open>__proto__\<close>, a built-in method for the others.
\<close>

datatype jsval = JStr string | JProto string

definition objectPrototypeMembers :: "string list" where
  "objectPrototypeMembers =
     [''constructor'', ''__proto__'', ''hasOwnProperty'', ''isPrototypeOf'',
      ''propertyIsEnumerable'', ''toLocaleString'', ''toString'', ''valueOf'',
      ''__defineGetter__'', ''__defineSetter__'', ''__lookupGetter__'', ''__lookupSetter__'']"

text \<open>String conversion, as a template literal or a property key applies it.\<close>

fun toStr :: "jsval \<Rightarrow> string" where
  "toStr (JStr s) = s"
| "toStr (JProto k) =
     (if k = ''__proto__'' then ''[object Object]''
      else ''function '' @ (if k = ''constructor'' then ''Object'' else k) @ ''() { [native code] }'')"

fun truthy :: "jsval \<Rightarrow> bool" where
  "truthy (JStr s) = (s \<noteq> [])"
| "truthy (JProto k) = True"

text \<open>\<^verbatim>\<open>tbl[key]\<close> on an object literal with the entries \<open>tbl\<close>; \<open>None\<close> is \<^verbatim>\<open>undefined\<close>.\<close>

definition recordGet :: "(string \<times> string) list \<Rightarrow> string \<Rightarrow> jsval option" where
  "recordGet tbl key =
     (case map_of tbl key of
        Some v \<Rightarrow> Some (JStr v)
      | None \<Rightarrow> if key \<in> set objectPrototypeMembers then Some (JProto key) else None)"

text \<open>\<^verbatim>\<open>x || d\<close>.\<close>

definition orElse :: "jsval option \<Rightarrow> jsval \<Rightarrow> jsval" where
  "orElse x d = (case x of None \<Rightarrow> d | Some v \<Rightarrow> if truthy v then v else d)"

text \<open>
  \<^verbatim>\<open>CLIError(message, exitCode, hint)\<close>, and the \<^verbatim>\<open>TypeError\<close> the runtime raises when a
  method is called on a value that does not have it.
\<close>

datatype error = CLIError string nat string | TypeError string

text \<open>
  \<^verbatim>\<open>ColumnSpec\<close> of \<^verbatim>\<open>src/types/index.ts\<close>. An optional boolean field is read only for its
  truth value, so \<open>False\<close> stands for both \<^verbatim>\<open>undefined\<close> and \<^verbatim>\<open>false\<close>; an optional string
  field is an \<open>option\<close>.
\<close>

record ColumnSpec =
  name :: string
  type :: jsval
  isPrimaryKey :: bool
  isForeignKey :: bool
  foreignKeyTable :: "string option"
  foreignKeyColumn :: "string option"
  isNullable :: bool
  defaultValue :: "string option"
  isAutoIncrement :: bool

subsection \<open>Identifier validation\<close>

text \<open>\<^verbatim>\<open>IDENTIFIER_REGEX = /^[a-zA-Z_][a-zA-Z0-9_]*$/\<close>.\<close>

definition isIdentStart :: "char \<Rightarrow> bool" where
  "isIdentStart c = (isUpper c \<or> isLower c \<or> c = CHR ''_'')"

definition isIdentChar :: "char \<Rightarrow> bool" where
  "isIdentChar c = (isIdentStart c \<or> isDigit c)"

definition validateIdentifier :: "string \<Rightarrow> bool" where
  "validateIdentifier s =
     (case s of [] \<Rightarrow> False | c # cs \<Rightarrow> isIdentStart c \<and> list_all isIdentChar cs)"

subsection \<open>The parser\<close>

definition normalizeTable :: "(string \<times> string) list" where
  "normalizeTable =
     [(''str'', ''text''), (''string'', ''text''), (''varchar'', ''text''), (''char'', ''text''),
      (''int'', ''integer''), (''number'', ''integer''), (''bigint'', ''bigint''),
      (''float'', ''real''), (''double'', ''real''), (''decimal'', ''real''),
      (''bool'', ''boolean''), (''boolean'', ''boolean''),
      (''date'', ''datetime''), (''timestamp'', ''datetime''), (''timestamptz'', ''datetime''),
      (''time'', ''datetime''), (''datetime'', ''datetime''),
      (''uuid'', ''uuid''), (''json'', ''jsonb''), (''jsonb'', ''jsonb''),
      (''blob'', ''blob''), (''bytes'', ''blob''), (''binary'', ''blob'')]"

text \<open>
  \<^verbatim>\<open>normalizeType(type)\<close>: \<^verbatim>\<open>typeMap[type.toLowerCase()] || type.toLowerCase()\<close>. The
  argument is whatever value the caller passes; only a string has \<^verbatim>\<open>toLowerCase\<close>.
\<close>

fun normalizeType :: "jsval \<Rightarrow> error + jsval" where
  "normalizeType (JStr t) =
     Inr (orElse (recordGet normalizeTable (toLowerCase t)) (JStr (toLowerCase t)))"
| "normalizeType (JProto k) = Inl (TypeError ''type.toLowerCase is not a function'')"

text \<open>
  \<^verbatim>\<open>modifier.match(/^fk\(([^)]+)\)$/i)\<close> and \<^verbatim>\<open>modifier.match(/^default\((.+)\)$/i)\<close>: the
  captured group, or \<open>None\<close> when the modifier does not match. Both patterns are anchored
  at both ends, so the group is what stands between the opening prefix and the last
  character; the prefix is compared lower-cased, which is what the flag \<^verbatim>\<open>i\<close> does on ASCII.
\<close>

definition matchFk :: "string \<Rightarrow> string option" where
  "matchFk m =
     (let body = butlast (drop 3 m)
      in if 5 \<le> length m \<and> toLowerCase (take 3 m) = ''fk('' \<and> last m = CHR '')''
            \<and> CHR '')'' \<notin> set body
         then Some body else None)"

definition matchDefault :: "string \<Rightarrow> string option" where
  "matchDefault m =
     (let body = butlast (drop 8 m)
      in if 10 \<le> length m \<and> toLowerCase (take 8 m) = ''default('' \<and> last m = CHR '')''
            \<and> \<not> list_ex isLineTerminator body
         then Some body else None)"

text \<open>The template fragment \<^verbatim>\<open>"${s}"\<close> of the error messages.\<close>

definition quoted :: "string \<Rightarrow> string" where
  "quoted s = [CHR 0x22] @ s @ [CHR 0x22]"

definition parseModifier :: "ColumnSpec \<Rightarrow> string \<Rightarrow> error + ColumnSpec" where
  "parseModifier column modifier =
     (let lmod = toLowerCase modifier in
      if lmod = ''pk'' \<or> lmod = ''primarykey'' \<or> lmod = ''primary_key''
      then Inr (column\<lparr>isPrimaryKey := True\<rparr>)
      else if lmod = ''autoincrement'' \<or> lmod = ''auto_increment'' \<or> lmod = ''serial''
      then Inr (column\<lparr>isAutoIncrement := True\<rparr>)
      else if lmod = ''nullable'' \<or> lmod = ''null''
      then Inr (column\<lparr>isNullable := True\<rparr>)
      else (case matchFk modifier of
              Some ref \<Rightarrow>
                (let parts = splitOn CHR ''.'' ref in
                 if 2 \<le> length parts
                 then Inr (column\<lparr>isForeignKey := True,
                                   foreignKeyTable := Some (join ''.'' (butlast parts)),
                                   foreignKeyColumn := Some (last parts)\<rparr>)
                 else Inr (column\<lparr>isForeignKey := True,
                                   foreignKeyTable := Some ref,
                                   foreignKeyColumn := Some ''id''\<rparr>))
            | None \<Rightarrow>
                (case matchDefault modifier of
                   Some v \<Rightarrow> Inr (column\<lparr>defaultValue := Some v\<rparr>)
                 | None \<Rightarrow>
                     Inl (CLIError (''Unknown modifier: '' @ quoted modifier) 1
                            ''Valid modifiers: pk, fk(table.column), nullable, default(value), autoincrement''))))"

text \<open>The loop \<^verbatim>\<open>for (const mod of modifiers) parseModifier(column, mod)\<close>.\<close>

fun parseModifiers :: "ColumnSpec \<Rightarrow> string list \<Rightarrow> error + ColumnSpec" where
  "parseModifiers column [] = Inr column"
| "parseModifiers column (m # ms) =
     (case parseModifier column m of
        Inl e \<Rightarrow> Inl e
      | Inr column' \<Rightarrow> parseModifiers column' ms)"

text \<open>
  \<^verbatim>\<open>parseColumn\<close>. The test \<^verbatim>\<open>segments.length < 2\<close> and the destructuring
  \<^verbatim>\<open>[name, type, ...modifiers] = segments\<close> are one pattern match: a list with at least two
  elements is \<open>nm # ty # modifiers\<close>.
\<close>

definition parseColumn :: "string \<Rightarrow> error + ColumnSpec" where
  "parseColumn definition =
     (let segments = map trim (splitOn CHR '':'' definition) in
      case segments of
        nm # ty # modifiers \<Rightarrow>
          if nm = [] \<or> ty = []
          then Inl (CLIError (''Missing name or type in column: '' @ quoted definition) 1
                      ''Each column must have a name and type'')
          else (case normalizeType (JStr ty) of
                  Inl e \<Rightarrow> Inl e
                | Inr t \<Rightarrow>
                    parseModifiers
                      \<lparr>name = nm, type = t, isPrimaryKey = False, isForeignKey = False,
                       foreignKeyTable = None, foreignKeyColumn = None, isNullable = False,
                       defaultValue = None, isAutoIncrement = False\<rparr>
                      modifiers)
      | _ \<Rightarrow>
          Inl (CLIError (''Invalid column definition: '' @ quoted definition) 1
                 ''Format: name:type[:modifiers] (e.g., id:int:pk, title:text, userId:uuid:fk(auth.users.id))''))"

text \<open>
  The loop of \<^verbatim>\<open>parseColumnSpec\<close> over the trimmed parts, \<open>columns\<close> being the array built
  so far: an empty part is skipped, a failing part aborts the call.
\<close>

fun parseParts :: "ColumnSpec list \<Rightarrow> string list \<Rightarrow> error + ColumnSpec list" where
  "parseParts columns [] = Inr columns"
| "parseParts columns (part # parts) =
     (if part = [] then parseParts columns parts
      else (case parseColumn part of
              Inl e \<Rightarrow> Inl e
            | Inr column \<Rightarrow> parseParts (columns @ [column]) parts))"

definition parseColumnSpec :: "string \<Rightarrow> error + ColumnSpec list" where
  "parseColumnSpec spec = parseParts [] (map trim (splitOn CHR '','' spec))"

subsection \<open>Case conversion helpers\<close>

text \<open>\<^verbatim>\<open>replace(/([A-Z])/g, '_$1')\<close>.\<close>

definition underscoreCapitals :: "string \<Rightarrow> string" where
  "underscoreCapitals s = concat (map (\<lambda>c. if isUpper c then [CHR ''_'', c] else [c]) s)"

text \<open>
  \<^verbatim>\<open>replace(/[-\s]+/g, '_')\<close>: every maximal run of hyphens and white space becomes one
  underscore. The flag says that the previous character belonged to a run.
\<close>

fun underscoreRuns :: "bool \<Rightarrow> string \<Rightarrow> string" where
  "underscoreRuns inRun [] = []"
| "underscoreRuns inRun (c # cs) =
     (if c = CHR ''-'' \<or> isWhiteSpace c
      then (if inRun then underscoreRuns True cs else CHR ''_'' # underscoreRuns True cs)
      else c # underscoreRuns False cs)"

text \<open>\<^verbatim>\<open>replace(/^_/, '')\<close>.\<close>

definition dropLeadingUnderscore :: "string \<Rightarrow> string" where
  "dropLeadingUnderscore s = (case s of [] \<Rightarrow> [] | c # cs \<Rightarrow> if c = CHR ''_'' then cs else s)"

definition toSnakeCase :: "string \<Rightarrow> string" where
  "toSnakeCase str =
     dropLeadingUnderscore (toLowerCase (underscoreRuns False (underscoreCapitals str)))"

text \<open>
  \<^verbatim>\<open>replace(/[-_\s]+(.)?/g, (_, c) => (c ? c.toUpperCase() : ''))\<close>: a maximal run of
  separators is deleted and the character after it, if there is one, is upper-cased. That
  character is never a line terminator, since line terminators are white space and belong
  to the run.
\<close>

definition isSeparator :: "char \<Rightarrow> bool" where
  "isSeparator c = (c = CHR ''-'' \<or> c = CHR ''_'' \<or> isWhiteSpace c)"

fun capitalizeAfterRuns :: "bool \<Rightarrow> string \<Rightarrow> string" where
  "capitalizeAfterRuns afterRun [] = []"
| "capitalizeAfterRuns afterRun (c # cs) =
     (if isSeparator c then capitalizeAfterRuns True cs
      else (if afterRun then toUpperChar c else c) # capitalizeAfterRuns False cs)"

text \<open>\<^verbatim>\<open>replace(/^(.)/, f)\<close> for a function \<open>f\<close> on one character.\<close>

definition replaceFirstChar :: "(char \<Rightarrow> char) \<Rightarrow> string \<Rightarrow> string" where
  "replaceFirstChar f s =
     (case s of [] \<Rightarrow> [] | c # cs \<Rightarrow> if isLineTerminator c then s else f c # cs)"

definition toCamelCase :: "string \<Rightarrow> string" where
  "toCamelCase str = replaceFirstChar toLowerChar (capitalizeAfterRuns False str)"

definition toPascalCase :: "string \<Rightarrow> string" where
  "toPascalCase str = replaceFirstChar toUpperChar (capitalizeAfterRuns False str)"

subsection \<open>The SQL emitter\<close>

definition sqlTypeTable :: "(string \<times> string) list" where
  "sqlTypeTable =
     [(''integer'', ''INTEGER''), (''bigint'', ''BIGINT''), (''text'', ''TEXT''),
      (''boolean'', ''BOOLEAN''), (''real'', ''REAL''), (''datetime'', ''TIMESTAMPTZ''),
      (''uuid'', ''UUID''), (''jsonb'', ''JSONB''), (''blob'', ''BYTEA'')]"

definition sqlType :: "jsval \<Rightarrow> jsval" where
  "sqlType t = orElse (recordGet sqlTypeTable (toStr t)) (JStr ''TEXT'')"

definition isNumericType :: "jsval \<Rightarrow> bool" where
  "isNumericType t = (t = JStr ''integer'' \<or> t = JStr ''real'' \<or> t = JStr ''bigint'')"

definition formatDefaultValue :: "string \<Rightarrow> jsval \<Rightarrow> string" where
  "formatDefaultValue v t =
     (if v = ''now()'' \<or> v = ''now'' then ''now()''
      else if t = JStr ''boolean'' then (if toLowerCase v = ''true'' then ''true'' else ''false'')
      else if isNumericType t then v
      else [CHR 0x27] @ v @ [CHR 0x27])"

text \<open>
  The body of the loop of \<^verbatim>\<open>columnsToSQL\<close>: the line pushed for one column, built by the
  successive assignments to \<^verbatim>\<open>line\<close>.
\<close>

definition columnsToSQL_line :: "ColumnSpec \<Rightarrow> string" where
  "columnsToSQL_line col =
     (let line0 = ''  '' @ toSnakeCase (name col) @ '' '' @ toStr (sqlType (type col));
          line1 = (if isPrimaryKey col \<and> isAutoIncrement col
                   then ''  '' @ toSnakeCase (name col) @ '' ''
                        @ (if type col = JStr ''uuid'' then ''UUID DEFAULT gen_random_uuid()''
                           else ''SERIAL'')
                        @ '' PRIMARY KEY''
                   else if isPrimaryKey col then line0 @ '' PRIMARY KEY''
                   else line0);
          line2 = (if \<not> isNullable col \<and> \<not> isPrimaryKey col then line1 @ '' NOT NULL''
                   else line1);
          line3 = (case defaultValue col of
                     None \<Rightarrow> line2
                   | Some v \<Rightarrow>
                       if \<not> isPrimaryKey col
                       then line2 @ '' DEFAULT '' @ formatDefaultValue v (type col)
                       else line2);
          line4 = (case foreignKeyTable col of
                     None \<Rightarrow> line3
                   | Some tbl \<Rightarrow>
                       if isForeignKey col \<and> tbl \<noteq> []
                       then line3 @ '' REFERENCES '' @ tbl @ ''(''
                            @ (case foreignKeyColumn col of
                                 None \<Rightarrow> ''id''
                               | Some c \<Rightarrow> if c \<noteq> [] then c else ''id'')
                            @ '') ON DELETE CASCADE''
                       else line3)
      in line4)"

definition columnsToSQL :: "string \<Rightarrow> ColumnSpec list \<Rightarrow> string" where
  "columnsToSQL tableName columns =
     (let lines = foldl (\<lambda>lines col. lines @ [columnsToSQL_line col]) [] columns
      in ''CREATE TABLE '' @ toSnakeCase tableName @ '' ('' @ [CHR 0x0A]
         @ join ('','' @ [CHR 0x0A]) lines @ [CHR 0x0A] @ '');'')"

subsection \<open>The Drift emitter\<close>

definition driftTypeTable :: "(string \<times> string) list" where
  "driftTypeTable =
     [(''integer'', ''integer''), (''bigint'', ''int64''), (''text'', ''text''),
      (''boolean'', ''boolean''), (''real'', ''real''), (''datetime'', ''dateTime''),
      (''uuid'', ''text''), (''jsonb'', ''text''), (''blob'', ''blob'')]"

definition getDriftType :: "jsval \<Rightarrow> jsval" where
  "getDriftType t = orElse (recordGet driftTypeTable (toStr t)) (JStr ''text'')"

definition formatDartDefault :: "string \<Rightarrow> jsval \<Rightarrow> string" where
  "formatDartDefault v t =
     (if v = ''now()'' \<or> v = ''now'' then ''currentDateAndTime''
      else if t = JStr ''boolean''
      then ''const Constant('' @ (if toLowerCase v = ''true'' then ''true'' else ''false'') @ '')''
      else if isNumericType t then ''const Constant('' @ v @ '')''
      else ''const Constant('' @ [CHR 0x27] @ v @ [CHR 0x27] @ '')'')"

definition driftColumn :: "ColumnSpec \<Rightarrow> string" where
  "driftColumn col =
     (let driftType = toStr (getDriftType (type col));
          line0 = ''  '' @ driftType @ ''Column get '' @ toCamelCase (name col) @ '' => ''
                  @ driftType @ ''()'';
          line1 = (if isPrimaryKey col \<and> isAutoIncrement col then line0 @ ''.autoIncrement()''
                   else line0);
          line2 = (if isNullable col then line1 @ ''.nullable()'' else line1);
          line3 = (case defaultValue col of
                     None \<Rightarrow> line2
                   | Some v \<Rightarrow>
                       line2 @ ''.withDefault('' @ formatDartDefault v (type col) @ '')'')
      in line3 @ ''();'')"

definition columnsToDrift :: "string \<Rightarrow> ColumnSpec list \<Rightarrow> string" where
  "columnsToDrift tableName columns =
     (let lines0 = [''class '' @ toPascalCase tableName @ '' extends Table {''];
          lines1 = foldl (\<lambda>lines col. lines @ [driftColumn col]) lines0 columns
      in join [CHR 0x0A] (lines1 @ [''}'']))"

section \<open>Properties\<close>

subsection \<open>Shared facts about the loops\<close>

lemma foldl_push: "foldl (\<lambda>lines col. lines @ [f col]) acc columns = acc @ map f columns"
  by (induction columns arbitrary: acc) simp_all

lemma columnsToSQL_lines:
  "columnsToSQL tableName columns =
     ''CREATE TABLE '' @ toSnakeCase tableName @ '' ('' @ [CHR 0x0A]
     @ join ('','' @ [CHR 0x0A]) (map columnsToSQL_line columns) @ [CHR 0x0A] @ '');''"
  by (simp add: columnsToSQL_def foldl_push)

lemma columnsToDrift_lines:
  "columnsToDrift tableName columns =
     join [CHR 0x0A]
       ((''class '' @ toPascalCase tableName @ '' extends Table {'')
        # map driftColumn columns @ [''}''])"
  by (simp add: columnsToDrift_def foldl_push)

subsection \<open>Identifier validation in the SQL emitter\<close>

text \<open>
  C1. The specification has \<^verbatim>\<open>columnsToSQL\<close> raise an invalid-identifier error when the
  table name or a column name fails the identifier grammar. The emitter of the source
  never calls the validator: on the table name \<^verbatim>\<open>users; DROP TABLE users;--\<close>, which the
  grammar refuses, it returns a statement.
\<close>

theorem columnsToSQL_emits_invalid_table_name:
  "\<not> validateIdentifier ''users; DROP TABLE users;--''
   \<and> parseColumnSpec ''id:int:pk''
       = Inr [\<lparr>name = ''id'', type = JStr ''integer'', isPrimaryKey = True,
               isForeignKey = False, foreignKeyTable = None, foreignKeyColumn = None,
               isNullable = False, defaultValue = None, isAutoIncrement = False\<rparr>]
   \<and> columnsToSQL ''users; DROP TABLE users;--''
        [\<lparr>name = ''id'', type = JStr ''integer'', isPrimaryKey = True,
          isForeignKey = False, foreignKeyTable = None, foreignKeyColumn = None,
          isNullable = False, defaultValue = None, isAutoIncrement = False\<rparr>]
       = ''CREATE TABLE users;__d_r_o_p__t_a_b_l_e_users;_ ('' @ [CHR 0x0A]
         @ ''  id INTEGER PRIMARY KEY'' @ [CHR 0x0A] @ '');''"
  by code_simp

subsection \<open>Foreign-key references in the parser\<close>

text \<open>
  C2. The specification has \<^verbatim>\<open>parseColumnSpec\<close> raise an invalid-identifier error when a
  dot-separated component of an \<^verbatim>\<open>fk(...)\<close> reference fails the identifier grammar. The
  parser of the source splits the reference and stores the pieces unchecked: the
  reference \<^verbatim>\<open>auth;DROP TABLE users.id\<close> yields a descriptor whose foreign-key table is
  \<^verbatim>\<open>auth;DROP TABLE users\<close>.
\<close>

theorem parseColumnSpec_accepts_invalid_fk_component:
  "\<not> validateIdentifier ''auth;DROP TABLE users''
   \<and> parseColumnSpec ''userId:uuid:fk(auth;DROP TABLE users.id)''
       = Inr [\<lparr>name = ''userId'', type = JStr ''uuid'', isPrimaryKey = False,
               isForeignKey = True, foreignKeyTable = Some ''auth;DROP TABLE users'',
               foreignKeyColumn = Some ''id'', isNullable = False, defaultValue = None,
               isAutoIncrement = False\<rparr>]"
  by code_simp

subsection \<open>Defaults in the Drift emitter\<close>

text \<open>
  C3. The specification has the Drift emitter escape every single quote of a string-typed
  default. \<^verbatim>\<open>formatDartDefault\<close> of the source interpolates the raw value: the default
  \<^verbatim>\<open>O'Brien\<close> of a text column is emitted as \<^verbatim>\<open>const Constant('O'Brien')\<close>, with the quote
  as it came.
\<close>

theorem formatDartDefault_keeps_quote:
  "formatDartDefault ''O'Brien'' (JStr ''text'') = ''const Constant('O'Brien')''
   \<and> parseColumnSpec ''name:text:default(O'Brien)''
       = Inr [\<lparr>name = ''name'', type = JStr ''text'', isPrimaryKey = False,
               isForeignKey = False, foreignKeyTable = None, foreignKeyColumn = None,
               isNullable = False, defaultValue = Some ''O'Brien'',
               isAutoIncrement = False\<rparr>]
   \<and> columnsToDrift ''Users''
        [\<lparr>name = ''name'', type = JStr ''text'', isPrimaryKey = False,
          isForeignKey = False, foreignKeyTable = None, foreignKeyColumn = None,
          isNullable = False, defaultValue = Some ''O'Brien'', isAutoIncrement = False\<rparr>]
       = ''class Users extends Table {'' @ [CHR 0x0A]
         @ ''  textColumn get name => text().withDefault(const Constant('O'Brien'))();''
         @ [CHR 0x0A] @ ''}''"
  by code_simp

subsection \<open>The table name in the Drift emitter\<close>

text \<open>
  C4. \<^verbatim>\<open>columnsToDrift\<close> has no failure branch and never consults the identifier grammar:
  for every table name and every list of columns it returns the class header built from
  the Pascal-cased table name, one line per column, and the closing brace, joined by
  line feeds.
\<close>

theorem columnsToDrift_table_name_unchecked:
  "columnsToDrift tableName columns =
     join [CHR 0x0A]
       ((''class '' @ toPascalCase tableName @ '' extends Table {'')
        # map driftColumn columns @ [''}''])"
  by (rule columnsToDrift_lines)

theorem columnsToDrift_table_name_unchecked_witness:
  "\<not> validateIdentifier ''users; DROP TABLE users;--''
   \<and> columnsToDrift ''users; DROP TABLE users;--''
        [\<lparr>name = ''id'', type = JStr ''integer'', isPrimaryKey = True,
          isForeignKey = False, foreignKeyTable = None, foreignKeyColumn = None,
          isNullable = False, defaultValue = None, isAutoIncrement = False\<rparr>]
       = ''class Users;DROPTABLEUsers; extends Table {'' @ [CHR 0x0A]
         @ ''  integerColumn get id => integer()();'' @ [CHR 0x0A] @ ''}''"
proof -
  let ?col = "\<lparr>name = ''id'', type = JStr ''integer'', isPrimaryKey = True,
               isForeignKey = False, foreignKeyTable = None, foreignKeyColumn = None,
               isNullable = False, defaultValue = None, isAutoIncrement = False\<rparr>"
  have invalid: "\<not> validateIdentifier ''users; DROP TABLE users;--''"
    by code_simp
  have pascal: "toPascalCase ''users; DROP TABLE users;--'' = ''Users;DROPTABLEUsers;''"
    by code_simp
  have line: "driftColumn ?col = ''  integerColumn get id => integer()();''"
    by code_simp
  have "columnsToDrift ''users; DROP TABLE users;--'' [?col]
          = join [CHR 0x0A]
              ((''class '' @ toPascalCase ''users; DROP TABLE users;--'' @ '' extends Table {'')
               # map driftColumn [?col] @ [''}''])"
    by (rule columnsToDrift_table_name_unchecked)
  then show ?thesis
    using invalid by (simp add: pascal line)
qed

subsection \<open>Defaults in the SQL emitter\<close>

text \<open>
  C6. \<^verbatim>\<open>formatDefaultValue\<close>: the tokens \<^verbatim>\<open>now()\<close> and \<^verbatim>\<open>now\<close> give \<^verbatim>\<open>now()\<close>; any other
  value of a boolean column gives \<^verbatim>\<open>true\<close> when it equals \<^verbatim>\<open>true\<close> up to case and \<^verbatim>\<open>false\<close>
  otherwise; any other value of an integer, real or bigint column is passed through;
  for every other type the raw value is put between single quotes unchanged, so a quote
  inside it stays unescaped.
\<close>

theorem formatDefaultValue_rule:
  "formatDefaultValue ''now()'' t = ''now()''
   \<and> formatDefaultValue ''now'' t = ''now()''
   \<and> (v \<noteq> ''now()'' \<and> v \<noteq> ''now'' \<longrightarrow>
        (t = JStr ''boolean'' \<longrightarrow>
           formatDefaultValue v t = (if toLowerCase v = ''true'' then ''true'' else ''false''))
      \<and> (t = JStr ''integer'' \<or> t = JStr ''real'' \<or> t = JStr ''bigint'' \<longrightarrow>
           formatDefaultValue v t = v)
      \<and> (t \<noteq> JStr ''boolean'' \<and> t \<noteq> JStr ''integer'' \<and> t \<noteq> JStr ''real''
           \<and> t \<noteq> JStr ''bigint'' \<longrightarrow>
           formatDefaultValue v t = [CHR 0x27] @ v @ [CHR 0x27]))"
  by (simp add: formatDefaultValue_def isNumericType_def)

theorem formatDefaultValue_rule_witness:
  "formatDefaultValue ''now'' (JStr ''text'') = ''now()''
   \<and> formatDefaultValue ''TRUE'' (JStr ''boolean'') = ''true''
   \<and> formatDefaultValue ''yes'' (JStr ''boolean'') = ''false''
   \<and> formatDefaultValue ''42'' (JStr ''integer'') = ''42''
   \<and> formatDefaultValue ''O'Brien'' (JStr ''text'') = [CHR 0x27] @ ''O'Brien'' @ [CHR 0x27]"
proof -
  have lower: "toLowerCase ''TRUE'' = ''true''" "toLowerCase ''yes'' \<noteq> ''true''"
    by code_simp+
  show ?thesis
    using formatDefaultValue_rule [of "JStr ''text''" "''O'Brien''"]
      formatDefaultValue_rule [of "JStr ''boolean''" "''TRUE''"]
      formatDefaultValue_rule [of "JStr ''boolean''" "''yes''"]
      formatDefaultValue_rule [of "JStr ''integer''" "''42''"]
    by (simp add: lower)
qed

subsection \<open>Type normalization\<close>

text \<open>
  Lower-casing leaves no capital letter, so of the members of \<^verbatim>\<open>Object.prototype\<close> only
  \<^verbatim>\<open>constructor\<close> and \<^verbatim>\<open>__proto__\<close> can be reached by a lower-cased key. Away from these
  two keys \<^verbatim>\<open>normalizeType\<close> returns a string that it maps to itself.
\<close>

lemma toLowerChar_not_upper: "\<not> isUpper (toLowerChar c)"
proof (cases "isUpper c")
  case True
  then have "(of_char (toLowerChar c) :: nat) = (of_char c + 32) mod 256"
    by (simp add: toLowerChar_def)
  moreover have "65 \<le> (of_char c :: nat)" "(of_char c :: nat) \<le> 90"
    using True by (simp_all add: isUpper_def Let_def)
  ultimately have "(of_char (toLowerChar c) :: nat) = of_char c + 32"
    by simp
  then show ?thesis
    using \<open>65 \<le> (of_char c :: nat)\<close> by (simp add: isUpper_def Let_def)
next
  case False
  then show ?thesis by (simp add: toLowerChar_def)
qed

lemma toLowerCase_idem: "toLowerCase (toLowerCase s) = toLowerCase s"
  using toLowerChar_not_upper by (simp add: toLowerCase_def toLowerChar_def)

lemma toLowerCase_no_upper: "c \<in> set (toLowerCase s) \<Longrightarrow> \<not> isUpper c"
  using toLowerChar_not_upper by (auto simp: toLowerCase_def)

lemma lowered_prototype_member:
  assumes "toLowerCase s \<in> set objectPrototypeMembers"
  shows "toLowerCase s = ''constructor'' \<or> toLowerCase s = ''__proto__''"
proof -
  have up: "isUpper CHR ''O''" "isUpper CHR ''P''" "isUpper CHR ''E''" "isUpper CHR ''L''"
    "isUpper CHR ''S''" "isUpper CHR ''G''"
    by (simp_all add: isUpper_def)
  have no: "c \<in> set (toLowerCase s) \<Longrightarrow> \<not> isUpper c" for c
    by (rule toLowerCase_no_upper)
  from assms consider "toLowerCase s = ''constructor''" | "toLowerCase s = ''__proto__''"
    | "toLowerCase s = ''hasOwnProperty''" | "toLowerCase s = ''isPrototypeOf''"
    | "toLowerCase s = ''propertyIsEnumerable''" | "toLowerCase s = ''toLocaleString''"
    | "toLowerCase s = ''toString''" | "toLowerCase s = ''valueOf''"
    | "toLowerCase s = ''__defineGetter__''" | "toLowerCase s = ''__defineSetter__''"
    | "toLowerCase s = ''__lookupGetter__''" | "toLowerCase s = ''__lookupSetter__''"
    by (auto simp: objectPrototypeMembers_def)
  then show ?thesis
  proof cases
    case 3 then show ?thesis using no [of "CHR ''O''"] up by simp
  next
    case 4 then show ?thesis using no [of "CHR ''P''"] up by simp
  next
    case 5 then show ?thesis using no [of "CHR ''E''"] up by simp
  next
    case 6 then show ?thesis using no [of "CHR ''L''"] up by simp
  next
    case 7 then show ?thesis using no [of "CHR ''S''"] up by simp
  next
    case 8 then show ?thesis using no [of "CHR ''O''"] up by simp
  next
    case 9 then show ?thesis using no [of "CHR ''G''"] up by simp
  next
    case 10 then show ?thesis using no [of "CHR ''S''"] up by simp
  next
    case 11 then show ?thesis using no [of "CHR ''G''"] up by simp
  next
    case 12 then show ?thesis using no [of "CHR ''S''"] up by simp
  qed simp_all
qed

lemma normalized_fixed:
  assumes "v \<in> snd ` set normalizeTable"
  shows "normalizeType (JStr v) = Inr (JStr v)"
proof -
  have fixed: "normalizeType (JStr ''text'') = Inr (JStr ''text'')"
    "normalizeType (JStr ''integer'') = Inr (JStr ''integer'')"
    "normalizeType (JStr ''bigint'') = Inr (JStr ''bigint'')"
    "normalizeType (JStr ''real'') = Inr (JStr ''real'')"
    "normalizeType (JStr ''boolean'') = Inr (JStr ''boolean'')"
    "normalizeType (JStr ''datetime'') = Inr (JStr ''datetime'')"
    "normalizeType (JStr ''uuid'') = Inr (JStr ''uuid'')"
    "normalizeType (JStr ''jsonb'') = Inr (JStr ''jsonb'')"
    "normalizeType (JStr ''blob'') = Inr (JStr ''blob'')"
    by code_simp+
  from assms have "v \<in> {''text'', ''integer'', ''bigint'', ''real'', ''boolean'', ''datetime'',
      ''uuid'', ''jsonb'', ''blob''}"
    by (auto simp: normalizeTable_def)
  then show ?thesis using fixed by auto
qed

lemma normalizeType_idempotent_off_prototype:
  assumes "toLowerCase t \<noteq> ''constructor''" and "toLowerCase t \<noteq> ''__proto__''"
  shows "\<exists>v. normalizeType (JStr t) = Inr (JStr v) \<and> normalizeType (JStr v) = Inr (JStr v)"
proof (cases "map_of normalizeTable (toLowerCase t)")
  case None
  have "toLowerCase t \<notin> set objectPrototypeMembers"
    using assms lowered_prototype_member by blast
  then have "normalizeType (JStr t) = Inr (JStr (toLowerCase t))"
    and "normalizeType (JStr (toLowerCase t)) = Inr (JStr (toLowerCase t))"
    using None by (simp_all add: recordGet_def orElse_def toLowerCase_idem)
  then show ?thesis by blast
next
  case (Some v)
  then have mem: "v \<in> snd ` set normalizeTable"
    by (force dest: map_of_SomeD)
  then have "v \<noteq> []"
    by (auto simp: normalizeTable_def)
  then have "normalizeType (JStr t) = Inr (JStr v)"
    using Some by (simp add: recordGet_def orElse_def)
  then show ?thesis using normalized_fixed [OF mem] by blast
qed

text \<open>
  C9. The specification has normalization idempotent on every string, unrecognized types
  passing through lower-cased. The lookup table of \<^verbatim>\<open>normalizeType\<close> is an object
  literal, so the key \<^verbatim>\<open>constructor\<close> finds the inherited function \<^verbatim>\<open>Object\<close>: the
  result is not the string \<^verbatim>\<open>constructor\<close>, and normalizing it again raises.
\<close>

theorem normalizeType_constructor_not_idempotent:
  "normalizeType (JStr ''constructor'') = Inr (JProto ''constructor'')
   \<and> normalizeType (JProto ''constructor'')
       = Inl (TypeError ''type.toLowerCase is not a function'')
   \<and> parseColumnSpec ''x:constructor''
       = Inr [\<lparr>name = ''x'', type = JProto ''constructor'', isPrimaryKey = False,
               isForeignKey = False, foreignKeyTable = None, foreignKeyColumn = None,
               isNullable = False, defaultValue = None, isAutoIncrement = False\<rparr>]"
  by code_simp

subsection \<open>Column lines of the SQL emitter\<close>

text \<open>
  C5. \<^verbatim>\<open>columnsToSQL\<close> emits one line per column between the header and the footer. The
  line of a column starts with the indented snake-cased name and goes on by precedence:
  a primary key that auto-increments gets \<^verbatim>\<open>UUID DEFAULT gen_random_uuid() PRIMARY KEY\<close>
  when its type is \<^verbatim>\<open>uuid\<close> and \<^verbatim>\<open>SERIAL PRIMARY KEY\<close> otherwise, without the type token; any
  other primary key gets the SQL type and \<^verbatim>\<open>PRIMARY KEY\<close>; any other column gets the SQL
  type, and \<^verbatim>\<open>NOT NULL\<close> exactly when it is not nullable. A \<^verbatim>\<open>DEFAULT\<close> clause follows exactly
  when a default value is present and the column is not a primary key; the foreign-key
  clause comes last.
\<close>

theorem columnsToSQL_line_precedence:
  "columnsToSQL tableName columns =
     ''CREATE TABLE '' @ toSnakeCase tableName @ '' ('' @ [CHR 0x0A]
     @ join ('','' @ [CHR 0x0A]) (map columnsToSQL_line columns) @ [CHR 0x0A] @ '');''
   \<and> columnsToSQL_line col =
       (if isPrimaryKey col \<and> isAutoIncrement col
        then (if type col = JStr ''uuid''
              then ''  '' @ toSnakeCase (name col)
                   @ '' UUID DEFAULT gen_random_uuid() PRIMARY KEY''
              else ''  '' @ toSnakeCase (name col) @ '' SERIAL PRIMARY KEY'')
        else if isPrimaryKey col
        then ''  '' @ toSnakeCase (name col) @ '' '' @ toStr (sqlType (type col))
             @ '' PRIMARY KEY''
        else ''  '' @ toSnakeCase (name col) @ '' '' @ toStr (sqlType (type col))
             @ (if isNullable col then [] else '' NOT NULL''))
       @ (case defaultValue col of
            None \<Rightarrow> []
          | Some v \<Rightarrow>
              if isPrimaryKey col then []
              else '' DEFAULT '' @ formatDefaultValue v (type col))
       @ (case foreignKeyTable col of
            None \<Rightarrow> []
          | Some tbl \<Rightarrow>
              if isForeignKey col \<and> tbl \<noteq> []
              then '' REFERENCES '' @ tbl @ ''(''
                   @ (case foreignKeyColumn col of
                        None \<Rightarrow> ''id''
                      | Some c \<Rightarrow> if c \<noteq> [] then c else ''id'')
                   @ '') ON DELETE CASCADE''
              else [])"
  by (simp add: columnsToSQL_lines columnsToSQL_line_def Let_def split: option.splits)

theorem columnsToSQL_line_precedence_witness:
  "columnsToSQL_line
     \<lparr>name = ''id'', type = JStr ''uuid'', isPrimaryKey = True, isForeignKey = False,
      foreignKeyTable = None, foreignKeyColumn = None, isNullable = False,
      defaultValue = Some ''x'', isAutoIncrement = True\<rparr>
     = ''  id UUID DEFAULT gen_random_uuid() PRIMARY KEY''
   \<and> columnsToSQL_line
     \<lparr>name = ''id'', type = JStr ''integer'', isPrimaryKey = True, isForeignKey = False,
      foreignKeyTable = None, foreignKeyColumn = None, isNullable = False,
      defaultValue = None, isAutoIncrement = True\<rparr>
     = ''  id SERIAL PRIMARY KEY''
   \<and> columnsToSQL_line
     \<lparr>name = ''id'', type = JStr ''integer'', isPrimaryKey = True, isForeignKey = False,
      foreignKeyTable = None, foreignKeyColumn = None, isNullable = False,
      defaultValue = None, isAutoIncrement = False\<rparr>
     = ''  id INTEGER PRIMARY KEY''
   \<and> columnsToSQL_line
     \<lparr>name = ''id'', type = JStr ''text'', isPrimaryKey = False, isForeignKey = False,
      foreignKeyTable = None, foreignKeyColumn = None, isNullable = False,
      defaultValue = Some ''now'', isAutoIncrement = True\<rparr>
     = ''  id TEXT NOT NULL DEFAULT now()''
   \<and> columnsToSQL_line
     \<lparr>name = ''id'', type = JStr ''text'', isPrimaryKey = False, isForeignKey = False,
      foreignKeyTable = None, foreignKeyColumn = None, isNullable = True,
      defaultValue = None, isAutoIncrement = False\<rparr>
     = ''  id TEXT''"
proof -
  have ground: "toSnakeCase ''id'' = ''id''"
    "toStr (sqlType (JStr ''integer'')) = ''INTEGER''"
    "toStr (sqlType (JStr ''text'')) = ''TEXT''"
    "formatDefaultValue ''now'' (JStr ''text'') = ''now()''"
    by code_simp+
  show ?thesis
    using
      columnsToSQL_line_precedence [THEN conjunct2,
        of "\<lparr>name = ''id'', type = JStr ''uuid'', isPrimaryKey = True, isForeignKey = False,
             foreignKeyTable = None, foreignKeyColumn = None, isNullable = False,
             defaultValue = Some ''x'', isAutoIncrement = True\<rparr>"]
      columnsToSQL_line_precedence [THEN conjunct2,
        of "\<lparr>name = ''id'', type = JStr ''integer'', isPrimaryKey = True, isForeignKey = False,
             foreignKeyTable = None, foreignKeyColumn = None, isNullable = False,
             defaultValue = None, isAutoIncrement = True\<rparr>"]
      columnsToSQL_line_precedence [THEN conjunct2,
        of "\<lparr>name = ''id'', type = JStr ''integer'', isPrimaryKey = True, isForeignKey = False,
             foreignKeyTable = None, foreignKeyColumn = None, isNullable = False,
             defaultValue = None, isAutoIncrement = False\<rparr>"]
      columnsToSQL_line_precedence [THEN conjunct2,
        of "\<lparr>name = ''id'', type = JStr ''text'', isPrimaryKey = False, isForeignKey = False,
             foreignKeyTable = None, foreignKeyColumn = None, isNullable = False,
             defaultValue = Some ''now'', isAutoIncrement = True\<rparr>"]
      columnsToSQL_line_precedence [THEN conjunct2,
        of "\<lparr>name = ''id'', type = JStr ''text'', isPrimaryKey = False, isForeignKey = False,
             foreignKeyTable = None, foreignKeyColumn = None, isNullable = True,
             defaultValue = None, isAutoIncrement = False\<rparr>"]
    by (simp add: ground)
qed

subsection \<open>The foreign-key clause of the SQL emitter\<close>

text \<open>
  C10. A column whose foreign-key table is absent (or empty), or that is not a foreign
  key, gets the line it would get without the foreign-key flag: no \<^verbatim>\<open>REFERENCES\<close> clause
  is appended. In the remaining case the line is that same line followed by
  \<^verbatim>\<open>REFERENCES <table>(<column>) ON DELETE CASCADE\<close>, where the column token is the
  foreign-key column, or \<^verbatim>\<open>id\<close> when that is missing or empty, and so never empty.
\<close>

theorem columnsToSQL_references_clause:
  "(foreignKeyTable col = None \<or> foreignKeyTable col = Some [] \<or> \<not> isForeignKey col \<longrightarrow>
      columnsToSQL_line col = columnsToSQL_line (col\<lparr>isForeignKey := False\<rparr>))
   \<and> (\<forall>tbl. isForeignKey col \<and> foreignKeyTable col = Some tbl \<and> tbl \<noteq> [] \<longrightarrow>
        (\<exists>c. c \<noteq> []
           \<and> c = (case foreignKeyColumn col of
                    None \<Rightarrow> ''id''
                  | Some x \<Rightarrow> if x = [] then ''id'' else x)
           \<and> columnsToSQL_line col =
               columnsToSQL_line (col\<lparr>isForeignKey := False\<rparr>)
               @ '' REFERENCES '' @ tbl @ ''('' @ c @ '') ON DELETE CASCADE''))"
  by (auto simp add: columnsToSQL_line_def Let_def split: option.splits)

theorem columnsToSQL_references_clause_witness:
  "columnsToSQL_line
     \<lparr>name = ''userId'', type = JStr ''uuid'', isPrimaryKey = False, isForeignKey = True,
      foreignKeyTable = None, foreignKeyColumn = Some ''id'', isNullable = False,
      defaultValue = None, isAutoIncrement = False\<rparr>
     = ''  user_id UUID NOT NULL''
   \<and> columnsToSQL_line
     \<lparr>name = ''userId'', type = JStr ''uuid'', isPrimaryKey = False, isForeignKey = True,
      foreignKeyTable = Some ''users'', foreignKeyColumn = None, isNullable = False,
      defaultValue = None, isAutoIncrement = False\<rparr>
     = ''  user_id UUID NOT NULL REFERENCES users(id) ON DELETE CASCADE''
   \<and> columnsToSQL_line
     \<lparr>name = ''userId'', type = JStr ''uuid'', isPrimaryKey = False, isForeignKey = True,
      foreignKeyTable = Some ''users'', foreignKeyColumn = Some [], isNullable = False,
      defaultValue = None, isAutoIncrement = False\<rparr>
     = ''  user_id UUID NOT NULL REFERENCES users(id) ON DELETE CASCADE''
   \<and> columnsToSQL_line
     \<lparr>name = ''userId'', type = JStr ''uuid'', isPrimaryKey = False, isForeignKey = True,
      foreignKeyTable = Some ''auth'', foreignKeyColumn = Some ''users'', isNullable = False,
      defaultValue = None, isAutoIncrement = False\<rparr>
     = ''  user_id UUID NOT NULL REFERENCES auth(users) ON DELETE CASCADE''"
proof -
  have plain:
    "columnsToSQL_line
       \<lparr>name = ''userId'', type = JStr ''uuid'', isPrimaryKey = False, isForeignKey = False,
        foreignKeyTable = None, foreignKeyColumn = Some ''id'', isNullable = False,
        defaultValue = None, isAutoIncrement = False\<rparr>
       = ''  user_id UUID NOT NULL''"
    "columnsToSQL_line
       \<lparr>name = ''userId'', type = JStr ''uuid'', isPrimaryKey = False, isForeignKey = False,
        foreignKeyTable = Some ''users'', foreignKeyColumn = None, isNullable = False,
        defaultValue = None, isAutoIncrement = False\<rparr>
       = ''  user_id UUID NOT NULL''"
    "columnsToSQL_line
       \<lparr>name = ''userId'', type = JStr ''uuid'', isPrimaryKey = False, isForeignKey = False,
        foreignKeyTable = Some ''users'', foreignKeyColumn = Some [], isNullable = False,
        defaultValue = None, isAutoIncrement = False\<rparr>
       = ''  user_id UUID NOT NULL''"
    "columnsToSQL_line
       \<lparr>name = ''userId'', type = JStr ''uuid'', isPrimaryKey = False, isForeignKey = False,
        foreignKeyTable = Some ''auth'', foreignKeyColumn = Some ''users'', isNullable = False,
        defaultValue = None, isAutoIncrement = False\<rparr>
       = ''  user_id UUID NOT NULL''"
    by code_simp+
  show ?thesis
    using
      columnsToSQL_references_clause
        [of "\<lparr>name = ''userId'', type = JStr ''uuid'', isPrimaryKey = False,
              isForeignKey = True, foreignKeyTable = None, foreignKeyColumn = Some ''id'',
              isNullable = False, defaultValue = None, isAutoIncrement = False\<rparr>"]
      columnsToSQL_references_clause
        [of "\<lparr>name = ''userId'', type = JStr ''uuid'', isPrimaryKey = False,
              isForeignKey = True, foreignKeyTable = Some ''users'', foreignKeyColumn = None,
              isNullable = False, defaultValue = None, isAutoIncrement = False\<rparr>"]
      columnsToSQL_references_clause
        [of "\<lparr>name = ''userId'', type = JStr ''uuid'', isPrimaryKey = False,
              isForeignKey = True, foreignKeyTable = Some ''users'',
              foreignKeyColumn = Some [], isNullable = False, defaultValue = None,
              isAutoIncrement = False\<rparr>"]
      columnsToSQL_references_clause
        [of "\<lparr>name = ''userId'', type = JStr ''uuid'', isPrimaryKey = False,
              isForeignKey = True, foreignKeyTable = Some ''auth'',
              foreignKeyColumn = Some ''users'', isNullable = False, defaultValue = None,
              isAutoIncrement = False\<rparr>"]
    by (simp add: plain)
qed

subsection \<open>Segments of a column specification\<close>

lemma parseParts_Inr_iff:
  "parseParts acc parts = Inr cols \<longleftrightarrow>
     (\<exists>cs. cols = acc @ cs \<and> map parseColumn (filter (\<lambda>p. p \<noteq> []) parts) = map Inr cs)"
proof (induction parts arbitrary: acc)
  case Nil
  then show ?case by auto
next
  case (Cons part parts)
  show ?case
  proof (cases "part = []")
    case True
    then show ?thesis using Cons.IH by simp
  next
    case False
    show ?thesis
    proof (cases "parseColumn part")
      case (Inl e)
      then show ?thesis using False by (auto simp: Cons_eq_map_conv)
    next
      case (Inr column)
      then show ?thesis using False Cons.IH [of "acc @ [column]"]
        by (auto simp: Cons_eq_map_conv)
    qed
  qed
qed

lemma parseColumnSpec_Inr_iff:
  "parseColumnSpec spec = Inr cols \<longleftrightarrow>
     map parseColumn (filter (\<lambda>p. p \<noteq> []) (map trim (splitOn CHR '','' spec))) = map Inr cols"
  by (simp add: parseColumnSpec_def parseParts_Inr_iff)

text \<open>
  C8. The segments of a specification are its comma-separated pieces, trimmed, the empty
  ones left out. \<^verbatim>\<open>parseColumnSpec\<close> succeeds with a list of descriptors exactly when every
  segment parses and the list holds the segments' descriptors in their order; so on
  success the list has one element per segment, the \<open>i\<close>-th element being the descriptor
  of the \<open>i\<close>-th segment, and an empty piece is never an error.
\<close>

theorem parseColumnSpec_one_per_segment:
  "(parseColumnSpec spec = Inr cols \<longleftrightarrow>
      map parseColumn (filter (\<lambda>p. p \<noteq> []) (map trim (splitOn CHR '','' spec))) = map Inr cols)
   \<and> (parseColumnSpec spec = Inr cols \<longrightarrow>
        length cols = length (filter (\<lambda>p. p \<noteq> []) (map trim (splitOn CHR '','' spec)))
        \<and> (\<forall>i < length cols.
              parseColumn (filter (\<lambda>p. p \<noteq> []) (map trim (splitOn CHR '','' spec)) ! i)
                = Inr (cols ! i)))"
proof -
  let ?segs = "filter (\<lambda>p. p \<noteq> []) (map trim (splitOn CHR '','' spec))"
  have iff: "parseColumnSpec spec = Inr cols \<longleftrightarrow> map parseColumn ?segs = map Inr cols"
    by (rule parseColumnSpec_Inr_iff)
  have "length cols = length ?segs \<and> (\<forall>i < length cols. parseColumn (?segs ! i) = Inr (cols ! i))"
    if eq: "map parseColumn ?segs = map Inr cols"
  proof -
    have len: "length ?segs = length cols"
      using arg_cong [OF eq, of length] by simp
    have "parseColumn (?segs ! i) = Inr (cols ! i)" if "i < length cols" for i
      using that len arg_cong [OF eq, of "\<lambda>xs. xs ! i"] by simp
    then show ?thesis using len by simp
  qed
  then show ?thesis using iff by blast
qed

theorem parseColumnSpec_one_per_segment_witness:
  "filter (\<lambda>p. p \<noteq> []) (map trim (splitOn CHR '','' ''id:int:pk, ,name:text,,''))
     = [''id:int:pk'', ''name:text'']
   \<and> parseColumnSpec ''id:int:pk, ,name:text,,''
       = Inr [\<lparr>name = ''id'', type = JStr ''integer'', isPrimaryKey = True,
               isForeignKey = False, foreignKeyTable = None, foreignKeyColumn = None,
               isNullable = False, defaultValue = None, isAutoIncrement = False\<rparr>,
              \<lparr>name = ''name'', type = JStr ''text'', isPrimaryKey = False,
               isForeignKey = False, foreignKeyTable = None, foreignKeyColumn = None,
               isNullable = False, defaultValue = None, isAutoIncrement = False\<rparr>]"
proof -
  have segs:
    "filter (\<lambda>p. p \<noteq> []) (map trim (splitOn CHR '','' ''id:int:pk, ,name:text,,''))
       = [''id:int:pk'', ''name:text'']"
    by code_simp
  have cols:
    "parseColumn ''id:int:pk''
       = Inr \<lparr>name = ''id'', type = JStr ''integer'', isPrimaryKey = True,
              isForeignKey = False, foreignKeyTable = None, foreignKeyColumn = None,
              isNullable = False, defaultValue = None, isAutoIncrement = False\<rparr>"
    "parseColumn ''name:text''
       = Inr \<lparr>name = ''name'', type = JStr ''text'', isPrimaryKey = False,
              isForeignKey = False, foreignKeyTable = None, foreignKeyColumn = None,
              isNullable = False, defaultValue = None, isAutoIncrement = False\<rparr>"
    by code_simp+
  have eq:
    "map parseColumn
       (filter (\<lambda>p. p \<noteq> []) (map trim (splitOn CHR '','' ''id:int:pk, ,name:text,,'')))
       = map Inr
           [\<lparr>name = ''id'', type = JStr ''integer'', isPrimaryKey = True,
             isForeignKey = False, foreignKeyTable = None, foreignKeyColumn = None,
             isNullable = False, defaultValue = None, isAutoIncrement = False\<rparr>,
            \<lparr>name = ''name'', type = JStr ''text'', isPrimaryKey = False,
             isForeignKey = False, foreignKeyTable = None, foreignKeyColumn = None,
             isNullable = False, defaultValue = None, isAutoIncrement = False\<rparr>]"
    unfolding segs by (simp add: cols)
  have "parseColumnSpec ''id:int:pk, ,name:text,,''
       = Inr [\<lparr>name = ''id'', type = JStr ''integer'', isPrimaryKey = True,
               isForeignKey = False, foreignKeyTable = None, foreignKeyColumn = None,
               isNullable = False, defaultValue = None, isAutoIncrement = False\<rparr>,
              \<lparr>name = ''name'', type = JStr ''text'', isPrimaryKey = False,
               isForeignKey = False, foreignKeyTable = None, foreignKeyColumn = None,
               isNullable = False, defaultValue = None, isAutoIncrement = False\<rparr>]"
    using parseColumnSpec_one_per_segment [THEN conjunct1, THEN iffD2, OF eq] .
  with segs show ?thesis by blast
qed

subsection \<open>The foreign-key modifier\<close>

lemma splitOn_not_Nil: "splitOn c s \<noteq> []"
  by (induction s) (auto split: list.splits)

lemma join_Cons_Cons: "join sep ((x # p) # ps) = x # join sep (p # ps)"
  by (cases ps) simp_all

lemma join_splitOn: "join [c] (splitOn c s) = s"
proof (induction s)
  case Nil
  then show ?case by simp
next
  case (Cons x xs)
  obtain p ps where ps: "splitOn c xs = p # ps"
    using splitOn_not_Nil [of c xs] by (cases "splitOn c xs") auto
  show ?case using Cons ps by (simp add: join_Cons_Cons)
qed

lemma join_snoc: "xs \<noteq> [] \<Longrightarrow> join sep (xs @ [y]) = join sep xs @ sep @ y"
  by (induction sep xs rule: join.induct) simp_all

lemma join_butlast_last:
  assumes "2 \<le> length ps"
  shows "join sep (butlast ps) @ sep @ last ps = join sep ps"
proof -
  have "ps \<noteq> []" and "butlast ps \<noteq> []"
    using assms by (cases ps; cases "tl ps"; auto)+
  then show ?thesis
    using join_snoc [of "butlast ps" sep "last ps"] by simp
qed

lemma splitOn_single: "length (splitOn c s) = 1 \<longleftrightarrow> c \<notin> set s"
proof (induction s)
  case Nil
  then show ?case by simp
next
  case (Cons x xs)
  obtain p ps where ps: "splitOn c xs = p # ps"
    using splitOn_not_Nil [of c xs] by (cases "splitOn c xs") auto
  show ?case using Cons ps by auto
qed

lemma toLowerChar_paren [simp]: "toLowerChar CHR ''('' = CHR ''(''"
  by (simp add: toLowerChar_def isUpper_def)

lemma toLowerChar_f: "f = CHR ''f'' \<or> f = CHR ''F'' \<Longrightarrow> toLowerChar f = CHR ''f''"
  by (auto simp: toLowerChar_def isUpper_def) code_simp

lemma toLowerChar_k: "k = CHR ''k'' \<or> k = CHR ''K'' \<Longrightarrow> toLowerChar k = CHR ''k''"
  by (auto simp: toLowerChar_def isUpper_def) code_simp

lemma matchFk_shape:
  assumes "f = CHR ''f'' \<or> f = CHR ''F''" and "k = CHR ''k'' \<or> k = CHR ''K''"
    and "ref \<noteq> []" and "CHR '')'' \<notin> set ref"
  shows "matchFk (f # k # CHR ''('' # ref @ '')'') = Some ref"
  using assms by (simp add: matchFk_def toLowerCase_def toLowerChar_f toLowerChar_k Suc_le_eq)

lemma toLowerChar_cases:
  assumes "toLowerChar a = b"
  shows "a = b \<or> (isUpper a \<and> (of_char b :: nat) = of_char a + 32)"
proof (cases "isUpper a")
  case True
  then have "b = char_of ((of_char a :: nat) + 32)"
    using assms by (simp add: toLowerChar_def)
  then have "(of_char b :: nat) = (of_char a + 32) mod 256"
    by simp
  moreover have "(of_char a :: nat) \<le> 90"
    using True by (simp add: isUpper_def Let_def)
  ultimately show ?thesis using True by simp
next
  case False
  then show ?thesis using assms by (simp add: toLowerChar_def)
qed

lemma of_char_nat_eq: "(of_char a :: nat) = of_char b \<Longrightarrow> a = b"
  by simp

lemma toLowerChar_eq_f: "toLowerChar a = CHR ''f'' \<Longrightarrow> a = CHR ''f'' \<or> a = CHR ''F''"
proof -
  assume "toLowerChar a = CHR ''f''"
  then have "a = CHR ''f'' \<or> (of_char a :: nat) = of_char CHR ''F''"
    using toLowerChar_cases [of a "CHR ''f''"] by auto
  then show ?thesis using of_char_nat_eq by blast
qed

lemma toLowerChar_eq_k: "toLowerChar a = CHR ''k'' \<Longrightarrow> a = CHR ''k'' \<or> a = CHR ''K''"
proof -
  assume "toLowerChar a = CHR ''k''"
  then have "a = CHR ''k'' \<or> (of_char a :: nat) = of_char CHR ''K''"
    using toLowerChar_cases [of a "CHR ''k''"] by auto
  then show ?thesis using of_char_nat_eq by blast
qed

lemma toLowerChar_eq_paren: "toLowerChar a = CHR ''('' \<Longrightarrow> a = CHR ''(''"
  using toLowerChar_cases [of a "CHR ''(''"] by (auto simp: isUpper_def)

lemma matchFk_Some_shape:
  assumes "matchFk m = Some ref"
  shows "\<exists>f k. m = f # k # CHR ''('' # ref @ '')''
           \<and> (f = CHR ''f'' \<or> f = CHR ''F'') \<and> (k = CHR ''k'' \<or> k = CHR ''K'')
           \<and> ref \<noteq> [] \<and> CHR '')'' \<notin> set ref"
proof -
  from assms have len: "5 \<le> length m"
    and pre: "toLowerCase (take 3 m) = ''fk(''"
    and lst: "last m = CHR '')''"
    and ref: "ref = butlast (drop 3 m)"
    and np: "CHR '')'' \<notin> set ref"
    by (auto simp: matchFk_def Let_def split: if_splits)
  from len obtain a b c rest where m: "m = a # b # c # rest" and rest: "2 \<le> length rest"
    by (cases m; cases "tl m"; cases "tl (tl m)"; auto)
  from rest have rne: "rest \<noteq> []" by auto
  from pre m have abc: "toLowerChar a = CHR ''f''" "toLowerChar b = CHR ''k''" "toLowerChar c = CHR ''(''"
    by (simp_all add: toLowerCase_def)
  from lst m rne have "last rest = CHR '')''" by simp
  with rne ref m have r: "rest = ref @ '')''"
    using append_butlast_last_id [of rest] by simp
  from rest r have "ref \<noteq> []" by auto
  with abc r m np show ?thesis
    using toLowerChar_eq_f [of a] toLowerChar_eq_k [of b] toLowerChar_eq_paren [of c] by auto
qed

lemma fk_not_keyword:
  "toLowerCase (f # k # CHR ''('' # rest) \<notin>
     {''pk'', ''primarykey'', ''primary_key'', ''autoincrement'', ''auto_increment'',
      ''serial'', ''nullable'', ''null''}"
  by (simp add: toLowerCase_def)

lemma matchFk_iff:
  "matchFk m = Some ref \<longleftrightarrow>
     (\<exists>f k. m = f # k # CHR ''('' # ref @ '')''
        \<and> (f = CHR ''f'' \<or> f = CHR ''F'') \<and> (k = CHR ''k'' \<or> k = CHR ''K'')
        \<and> ref \<noteq> [] \<and> CHR '')'' \<notin> set ref)"
  using matchFk_Some_shape [of m ref] matchFk_shape [of _ _ ref] by blast

lemma parseModifier_fk:
  assumes "matchFk m = Some ref"
  shows "parseModifier col m =
           Inr (if 2 \<le> length (splitOn CHR ''.'' ref)
                then col\<lparr>isForeignKey := True,
                         foreignKeyTable := Some (join ''.'' (butlast (splitOn CHR ''.'' ref))),
                         foreignKeyColumn := Some (last (splitOn CHR ''.'' ref))\<rparr>
                else col\<lparr>isForeignKey := True,
                         foreignKeyTable := Some ref,
                         foreignKeyColumn := Some ''id''\<rparr>)"
proof -
  from assms obtain f k where m: "m = f # k # CHR ''('' # ref @ '')''"
    using matchFk_Some_shape by blast
  show ?thesis
    using fk_not_keyword [of f k "ref @ '')''"] assms
    unfolding m by (simp add: parseModifier_def Let_def)
qed

lemma parseModifier_fk_defined:
  assumes "parseModifier col m = Inr col'"
    and "isForeignKey col \<longrightarrow> foreignKeyColumn col \<noteq> None"
  shows "isForeignKey col' \<longrightarrow> foreignKeyColumn col' \<noteq> None"
  using assms
  by (auto simp: parseModifier_def Let_def split: if_splits option.splits)

lemma parseModifiers_fk_defined:
  assumes "parseModifiers col ms = Inr col'"
    and "isForeignKey col \<longrightarrow> foreignKeyColumn col \<noteq> None"
  shows "isForeignKey col' \<longrightarrow> foreignKeyColumn col' \<noteq> None"
  using assms
proof (induction ms arbitrary: col)
  case Nil
  then show ?case by simp
next
  case (Cons m ms)
  then obtain col1 where step: "parseModifier col m = Inr col1"
    and rest: "parseModifiers col1 ms = Inr col'"
    by (auto split: sum.splits)
  show ?case
    using Cons.IH [OF rest] parseModifier_fk_defined [OF step Cons.prems(2)] by blast
qed

lemma parseColumn_fk_defined:
  assumes "parseColumn d = Inr c"
  shows "isForeignKey c \<longrightarrow> foreignKeyColumn c \<noteq> None"
proof -
  from assms obtain c0 ms where run: "parseModifiers c0 ms = Inr c"
    and start: "\<not> isForeignKey c0"
    by (auto simp: parseColumn_def Let_def split: if_splits list.splits sum.splits)
  show ?thesis
    using parseModifiers_fk_defined [OF run] start by blast
qed

lemma parseColumnSpec_fk_defined:
  assumes "parseColumnSpec spec = Inr cols" and "c \<in> set cols"
  shows "isForeignKey c \<longrightarrow> foreignKeyColumn c \<noteq> None"
proof -
  let ?segs = "filter (\<lambda>p. p \<noteq> []) (map trim (splitOn CHR '','' spec))"
  have eq: "map parseColumn ?segs = map Inr cols"
    using assms(1) by (simp add: parseColumnSpec_Inr_iff)
  from assms(2) obtain i where i: "i < length cols" and c: "cols ! i = c"
    by (auto simp: in_set_conv_nth)
  have len: "length ?segs = length cols"
    using arg_cong [OF eq, of length] by simp
  have "parseColumn (?segs ! i) = Inr c"
    using i c len arg_cong [OF eq, of "\<lambda>xs. xs ! i"] by simp
  then show ?thesis by (rule parseColumn_fk_defined)
qed

text \<open>
  C7. A modifier the foreign-key pattern accepts is \<^verbatim>\<open>fk\<close> in either case, an opening
  parenthesis, a non-empty reference without closing parenthesis, and a closing
  parenthesis. \<^verbatim>\<open>parseModifier\<close> then sets \<^verbatim>\<open>isForeignKey\<close>; when the reference has at least
  two dot-separated parts, the last part becomes \<^verbatim>\<open>foreignKeyColumn\<close> and the other parts,
  joined with dots, become \<^verbatim>\<open>foreignKeyTable\<close> (table, dot and column give the reference
  back); when it has one part, that is, no dot, the reference becomes \<^verbatim>\<open>foreignKeyTable\<close>
  and \<^verbatim>\<open>foreignKeyColumn\<close> is \<^verbatim>\<open>id\<close>. Hence every descriptor \<^verbatim>\<open>parseColumnSpec\<close> returns
  with \<^verbatim>\<open>isForeignKey\<close> set has \<^verbatim>\<open>foreignKeyColumn\<close> defined.
\<close>

theorem fk_modifier_reference:
  "(\<forall>m ref.
      matchFk m = Some ref \<longleftrightarrow>
        (\<exists>f k. m = f # k # CHR ''('' # ref @ '')''
           \<and> (f = CHR ''f'' \<or> f = CHR ''F'') \<and> (k = CHR ''k'' \<or> k = CHR ''K'')
           \<and> ref \<noteq> [] \<and> CHR '')'' \<notin> set ref))
   \<and> (\<forall>col m ref.
         matchFk m = Some ref \<longrightarrow>
         parseModifier col m =
           Inr (if 2 \<le> length (splitOn CHR ''.'' ref)
                then col\<lparr>isForeignKey := True,
                         foreignKeyTable := Some (join ''.'' (butlast (splitOn CHR ''.'' ref))),
                         foreignKeyColumn := Some (last (splitOn CHR ''.'' ref))\<rparr>
                else col\<lparr>isForeignKey := True,
                         foreignKeyTable := Some ref,
                         foreignKeyColumn := Some ''id''\<rparr>))
   \<and> (\<forall>ref. 2 \<le> length (splitOn CHR ''.'' ref) \<longrightarrow>
         join ''.'' (butlast (splitOn CHR ''.'' ref)) @ ''.'' @ last (splitOn CHR ''.'' ref)
           = ref)
   \<and> (\<forall>ref. length (splitOn CHR ''.'' ref) = 1 \<longleftrightarrow> CHR ''.'' \<notin> set ref)
   \<and> (\<forall>spec cols c.
         parseColumnSpec spec = Inr cols \<and> c \<in> set cols \<and> isForeignKey c \<longrightarrow>
         foreignKeyColumn c \<noteq> None)"
proof -
  have shape: "\<forall>m ref.
      matchFk m = Some ref \<longleftrightarrow>
        (\<exists>f k. m = f # k # CHR ''('' # ref @ '')''
           \<and> (f = CHR ''f'' \<or> f = CHR ''F'') \<and> (k = CHR ''k'' \<or> k = CHR ''K'')
           \<and> ref \<noteq> [] \<and> CHR '')'' \<notin> set ref)"
    using matchFk_iff by blast
  have sets: "\<forall>col m ref.
         matchFk m = Some ref \<longrightarrow>
         parseModifier col m =
           Inr (if 2 \<le> length (splitOn CHR ''.'' ref)
                then col\<lparr>isForeignKey := True,
                         foreignKeyTable := Some (join ''.'' (butlast (splitOn CHR ''.'' ref))),
                         foreignKeyColumn := Some (last (splitOn CHR ''.'' ref))\<rparr>
                else col\<lparr>isForeignKey := True,
                         foreignKeyTable := Some ref,
                         foreignKeyColumn := Some ''id''\<rparr>)"
    using parseModifier_fk by blast
  have rejoin: "\<forall>ref. 2 \<le> length (splitOn CHR ''.'' ref) \<longrightarrow>
         join ''.'' (butlast (splitOn CHR ''.'' ref)) @ ''.'' @ last (splitOn CHR ''.'' ref)
           = ref"
  proof (intro allI impI)
    fix ref
    assume "2 \<le> length (splitOn CHR ''.'' ref)"
    then show "join ''.'' (butlast (splitOn CHR ''.'' ref)) @ ''.''
                 @ last (splitOn CHR ''.'' ref) = ref"
      using join_butlast_last [of "splitOn CHR ''.'' ref" "''.''"]
        join_splitOn [of "CHR ''.''" ref]
      by simp
  qed
  have single: "\<forall>ref. length (splitOn CHR ''.'' ref) = 1 \<longleftrightarrow> CHR ''.'' \<notin> set ref"
    using splitOn_single by blast
  have defined: "\<forall>spec cols c.
         parseColumnSpec spec = Inr cols \<and> c \<in> set cols \<and> isForeignKey c \<longrightarrow>
         foreignKeyColumn c \<noteq> None"
    using parseColumnSpec_fk_defined by blast
  from shape sets rejoin single defined show ?thesis
    by (intro conjI)
qed

theorem fk_modifier_reference_witness:
  "parseColumnSpec ''userId:uuid:fk(auth.users.id),owner:uuid:FK(users)''
     = Inr [\<lparr>name = ''userId'', type = JStr ''uuid'', isPrimaryKey = False,
             isForeignKey = True, foreignKeyTable = Some ''auth.users'',
             foreignKeyColumn = Some ''id'', isNullable = False, defaultValue = None,
             isAutoIncrement = False\<rparr>,
            \<lparr>name = ''owner'', type = JStr ''uuid'', isPrimaryKey = False,
             isForeignKey = True, foreignKeyTable = Some ''users'',
             foreignKeyColumn = Some ''id'', isNullable = False, defaultValue = None,
             isAutoIncrement = False\<rparr>]
   \<and> parseModifier
       \<lparr>name = ''userId'', type = JStr ''uuid'', isPrimaryKey = False, isForeignKey = False,
        foreignKeyTable = None, foreignKeyColumn = None, isNullable = False,
        defaultValue = None, isAutoIncrement = False\<rparr>
       ''fk(auth.users.id)''
     = Inr \<lparr>name = ''userId'', type = JStr ''uuid'', isPrimaryKey = False,
            isForeignKey = True, foreignKeyTable = Some ''auth.users'',
            foreignKeyColumn = Some ''id'', isNullable = False, defaultValue = None,
            isAutoIncrement = False\<rparr>
   \<and> parseModifier
       \<lparr>name = ''owner'', type = JStr ''uuid'', isPrimaryKey = False, isForeignKey = False,
        foreignKeyTable = None, foreignKeyColumn = None, isNullable = False,
        defaultValue = None, isAutoIncrement = False\<rparr>
       ''FK(users)''
     = Inr \<lparr>name = ''owner'', type = JStr ''uuid'', isPrimaryKey = False,
            isForeignKey = True, foreignKeyTable = Some ''users'',
            foreignKeyColumn = Some ''id'', isNullable = False, defaultValue = None,
            isAutoIncrement = False\<rparr>
   \<and> foreignKeyColumn
       \<lparr>name = ''owner'', type = JStr ''uuid'', isPrimaryKey = False,
        isForeignKey = True, foreignKeyTable = Some ''users'',
        foreignKeyColumn = Some ''id'', isNullable = False, defaultValue = None,
        isAutoIncrement = False\<rparr> \<noteq> None"
proof -
  let ?c1 = "\<lparr>name = ''userId'', type = JStr ''uuid'', isPrimaryKey = False,
             isForeignKey = True, foreignKeyTable = Some ''auth.users'',
             foreignKeyColumn = Some ''id'', isNullable = False, defaultValue = None,
             isAutoIncrement = False\<rparr>"
  let ?c2 = "\<lparr>name = ''owner'', type = JStr ''uuid'', isPrimaryKey = False,
             isForeignKey = True, foreignKeyTable = Some ''users'',
             foreignKeyColumn = Some ''id'', isNullable = False, defaultValue = None,
             isAutoIncrement = False\<rparr>"
  have parsed:
    "parseColumnSpec ''userId:uuid:fk(auth.users.id),owner:uuid:FK(users)'' = Inr [?c1, ?c2]"
    by code_simp
  have parts: "splitOn CHR ''.'' ''auth.users.id'' = [''auth'', ''users'', ''id'']"
    "splitOn CHR ''.'' ''users'' = [''users'']"
    by code_simp+
  have matches: "matchFk ''fk(auth.users.id)'' = Some ''auth.users.id''"
    "matchFk ''FK(users)'' = Some ''users''"
    by code_simp+
  note fk = fk_modifier_reference
  have m1: "parseModifier
       \<lparr>name = ''userId'', type = JStr ''uuid'', isPrimaryKey = False, isForeignKey = False,
        foreignKeyTable = None, foreignKeyColumn = None, isNullable = False,
        defaultValue = None, isAutoIncrement = False\<rparr>
       ''fk(auth.users.id)'' = Inr ?c1"
    using fk [THEN conjunct2, THEN conjunct1, rule_format, OF matches(1),
        of "\<lparr>name = ''userId'', type = JStr ''uuid'', isPrimaryKey = False,
             isForeignKey = False, foreignKeyTable = None, foreignKeyColumn = None,
             isNullable = False, defaultValue = None, isAutoIncrement = False\<rparr>"]
    by (simp add: parts)
  have m2: "parseModifier
       \<lparr>name = ''owner'', type = JStr ''uuid'', isPrimaryKey = False, isForeignKey = False,
        foreignKeyTable = None, foreignKeyColumn = None, isNullable = False,
        defaultValue = None, isAutoIncrement = False\<rparr>
       ''FK(users)'' = Inr ?c2"
    using fk [THEN conjunct2, THEN conjunct1, rule_format, OF matches(2),
        of "\<lparr>name = ''owner'', type = JStr ''uuid'', isPrimaryKey = False,
             isForeignKey = False, foreignKeyTable = None, foreignKeyColumn = None,
             isNullable = False, defaultValue = None, isAutoIncrement = False\<rparr>"]
    by (simp add: parts)
  have defined: "foreignKeyColumn ?c2 \<noteq> None"
    using fk [THEN conjunct2, THEN conjunct2, THEN conjunct2, THEN conjunct2, rule_format,
        of "''userId:uuid:fk(auth.users.id),owner:uuid:FK(users)''" "[?c1, ?c2]" ?c2]
      parsed
    by simp
  show ?thesis using parsed m1 m2 defined by blast
qed

end
